theory Spec2Isabelle
  imports Complex_Main "HOL-Library.Word" "HOL-Library.Sublist" "HOL-Library.List_Lexorder"
begin

unbundle bit_operations_syntax

section \<open>Primitive values\<close>

text \<open>
  Go's \<open>[]byte\<close> is a list of 8-bit words; \<open>Reference\<close>, \<open>Document\<close> and \<open>Key\<close> are all
  byte slices. A Go \<open>string\<close> is an immutable byte sequence: it is modelled as \<open>string\<close>
  (one \<open>char\<close> per byte), and the conversion \<open>[]byte(s)\<close> maps every char to its byte.
  A \<open>float64\<close> is represented by its IEEE-754 bit pattern, which is all that the index
  ever reads of it (\<open>math.Float64bits\<close>); no floating-point arithmetic is performed on
  scalars anywhere in the package.
\<close>

type_synonym byte = "8 word"
type_synonym Reference = "byte list"
type_synonym Document = "byte list"
type_synonym Key = "byte list"
type_synonym float64 = "64 word"

definition bytes_of_string :: "string \<Rightarrow> byte list" where
  "bytes_of_string s = map of_char s"

definition Float64bits :: "float64 \<Rightarrow> 64 word" where
  "Float64bits f = f"

definition Float64frombits :: "64 word \<Rightarrow> float64" where
  "Float64frombits b = b"

text \<open>
  The dynamic values an \<open>interface{}\<close> holds in this package: what \<open>json.Unmarshal\<close> and the
  JSON-LD expansion produce (nil, bool, string, float64, slices and string-keyed maps),
  and two further kinds the package itself names in type switches (\<open>[]byte\<close>, \<open>uint32\<close>),
  which stand for every kind that is not a scalar. A map is an association list read
  with \<open>map_of\<close>.
\<close>

datatype any =
    ANil
  | ABool bool
  | AString string
  | AFloat64 float64
  | AUint32 "32 word"
  | ABytes "byte list"
  | ASlice "any list"
  | AMap "(string \<times> any) list"

datatype json_error = SyntaxError string

datatype ld_error = JsonLdError string

datatype error =
    ErrNoQuery
  | ErrNoIndex
  | ErrInvalidJSON
  | ErrInvalidValue
  | Canceled
  | DeadlineExceeded
  | JSONError json_error
  | LDError ld_error
  | OtherError string

subsection \<open>Term paths\<close>

datatype TermPath = TermPath (Terms: "string list")

definition NewTermPath :: "string list \<Rightarrow> TermPath" where
  "NewTermPath terms = TermPath terms"

definition IsEmpty :: "TermPath \<Rightarrow> bool" where
  "IsEmpty tp = (length (Terms tp) = 0)"

definition Head :: "TermPath \<Rightarrow> string" where
  "Head tp = (if length (Terms tp) = 0 then [] else Terms tp ! 0)"

definition Tail :: "TermPath \<Rightarrow> TermPath" where
  "Tail tp = (if length (Terms tp) \<le> 1 then TermPath [] else TermPath (drop 1 (Terms tp)))"

subsection \<open>Scalars\<close>

datatype Scalar = Scalar (val: any)

fun ScalarParse :: "any \<Rightarrow> error + Scalar" where
  "ScalarParse (ABool b) = Inr (Scalar (ABool b))"
| "ScalarParse (AString s) = Inr (Scalar (AString s))"
| "ScalarParse (AFloat64 f) = Inr (Scalar (AFloat64 f))"
| "ScalarParse _ = Inl ErrInvalidValue"

text \<open>\<open>binary.BigEndian.PutUint64\<close> and \<open>binary.BigEndian.Uint64\<close> of the standard library.
  Reading fewer than eight bytes panics (\<open>None\<close>).\<close>

definition PutUint64 :: "64 word \<Rightarrow> byte list" where
  "PutUint64 v =
     [ucast (drop_bit 56 v), ucast (drop_bit 48 v), ucast (drop_bit 40 v),
      ucast (drop_bit 32 v), ucast (drop_bit 24 v), ucast (drop_bit 16 v),
      ucast (drop_bit 8 v), ucast v]"

fun Uint64 :: "byte list \<Rightarrow> 64 word option" where
  "Uint64 (b0 # b1 # b2 # b3 # b4 # b5 # b6 # b7 # _) =
     Some (ucast b7 OR push_bit 8 (ucast b6) OR push_bit 16 (ucast b5)
       OR push_bit 24 (ucast b4) OR push_bit 32 (ucast b3) OR push_bit 40 (ucast b2)
       OR push_bit 48 (ucast b1) OR push_bit 56 (ucast b0))"
| "Uint64 _ = None"

fun Bytes :: "Scalar \<Rightarrow> byte list" where
  "Bytes (Scalar (ABool castData)) = (if castData then [1] else [0])"
| "Bytes (Scalar (AString castData)) = bytes_of_string castData"
| "Bytes (Scalar (AFloat64 castData)) = PutUint64 (Float64bits castData)"
| "Bytes (Scalar _) = []"

text \<open>The typed decoders of the round-trip property: a boolean is read from the first
  byte (non-zero is true), a double from the big-endian unsigned 64-bit integer taken as
  IEEE-754 bits (as the test of \<open>ValuesAtPath\<close> on a number does). The number a byte
  string denotes in base 256, most significant byte first, is \<open>be_nat\<close>.\<close>

definition decode_bool :: "byte list \<Rightarrow> bool option" where
  "decode_bool bs = (case bs of [] \<Rightarrow> None | b # _ \<Rightarrow> Some (b \<noteq> 0))"

definition decode_float64 :: "byte list \<Rightarrow> float64 option" where
  "decode_float64 bs = map_option Float64frombits (Uint64 bs)"

definition be_nat :: "byte list \<Rightarrow> nat" where
  "be_nat bs = foldl (\<lambda>acc b. 256 * acc + unat b) 0 bs"

section \<open>Queries\<close>

type_synonym Transform = "Scalar \<Rightarrow> Scalar"

text \<open>\<open>bytes.Compare\<close> (lexicographic on unsigned bytes, result -1, 0 or +1; a nil slice
  equals an empty one) and \<open>bytes.HasPrefix\<close> of the standard library.\<close>

fun bytes_Compare :: "byte list \<Rightarrow> byte list \<Rightarrow> int" where
  "bytes_Compare [] [] = 0"
| "bytes_Compare [] (y # ys) = - 1"
| "bytes_Compare (x # xs) [] = 1"
| "bytes_Compare (x # xs) (y # ys) =
     (if x < y then - 1 else if y < x then 1 else bytes_Compare xs ys)"

definition bytes_HasPrefix :: "byte list \<Rightarrow> byte list \<Rightarrow> bool" where
  "bytes_HasPrefix s pre = (length pre \<le> length s \<and> take (length pre) s = pre)"

datatype QueryPart =
    eqPart TermPath Scalar
  | rangePart TermPath Scalar Scalar
  | prefixPart TermPath Scalar

definition Eq :: "TermPath \<Rightarrow> Scalar \<Rightarrow> QueryPart" where
  "Eq termPath v = eqPart termPath v"

definition Range_q :: "TermPath \<Rightarrow> Scalar \<Rightarrow> Scalar \<Rightarrow> QueryPart" where
  "Range_q termPath begin_v end_v = rangePart termPath begin_v end_v"

definition Prefix :: "TermPath \<Rightarrow> Scalar \<Rightarrow> QueryPart" where
  "Prefix termPath v = prefixPart termPath v"

fun QueryPart_TermPath :: "QueryPart \<Rightarrow> TermPath" where
  "QueryPart_TermPath (eqPart tp v) = tp"
| "QueryPart_TermPath (rangePart tp b e) = tp"
| "QueryPart_TermPath (prefixPart tp v) = tp"

fun Seek :: "QueryPart \<Rightarrow> Scalar" where
  "Seek (eqPart tp v) = v"
| "Seek (rangePart tp b e) = b"
| "Seek (prefixPart tp v) = v"

fun Condition :: "QueryPart \<Rightarrow> Key \<Rightarrow> Transform option \<Rightarrow> bool" where
  "Condition (eqPart tp v) key transform =
     (case transform of
        Some t \<Rightarrow> bytes_Compare key (Bytes (t v)) = 0
      | None \<Rightarrow> bytes_Compare key (Bytes v) = 0)"
| "Condition (rangePart tp b e) key transform =
     (let bTransformed = (case transform of Some t \<Rightarrow> t b | None \<Rightarrow> b);
          eTransformed = (case transform of Some t \<Rightarrow> t e | None \<Rightarrow> e)
      in if bytes_Compare key (Bytes bTransformed) < 0 then False
         else bytes_Compare key (Bytes eTransformed) \<le> 0)"
| "Condition (prefixPart tp v) key transform =
     (let transformed = (case transform of Some t \<Rightarrow> t v | None \<Rightarrow> v)
      in bytes_HasPrefix key (Bytes transformed))"

text \<open>The table of the specification writes \<open>transform(value)\<close> for the query scalar under
  the optional transform; with no transform it is the scalar itself.\<close>

definition spec_transform :: "Transform option \<Rightarrow> Scalar \<Rightarrow> Scalar" where
  "spec_transform transform v = (case transform of None \<Rightarrow> v | Some t \<Rightarrow> t v)"


subsection \<open>Slices and the query value\<close>

text \<open>
  \<open>query.And\<close> appends to the slice it holds, and \<open>append\<close> writes into the backing array
  when it has room: what a query's \<open>Parts()\<close> returns depends on the arrays. So the arrays
  are an explicit store: a list of arrays, addressed by position, each a list of
  interface values (\<open>None\<close> is the nil interface). A slice header is a pointer to an
  array, a length and a capacity; every slice of this package starts at the first
  element of its array. \<open>growslice\<close> is the capacity the runtime proposes for a full
  slice of a given capacity; the language only promises an array that fits the result,
  hence the \<open>max\<close>.
\<close>

type_synonym 'a arrays = "'a option list list"

record slice =
  ptr :: nat
  len :: nat
  cap :: nat

definition slice_elems :: "'a arrays \<Rightarrow> slice \<Rightarrow> 'a option list" where
  "slice_elems h s = (if len s = 0 then [] else take (len s) (h ! ptr s))"

definition slice_ok :: "'a arrays \<Rightarrow> slice \<Rightarrow> bool" where
  "slice_ok h s =
     (len s \<le> cap s \<and> (cap s = 0 \<or> (ptr s < length h \<and> length (h ! ptr s) = cap s)))"

definition go_append ::
  "(nat \<Rightarrow> nat) \<Rightarrow> 'a arrays \<Rightarrow> slice \<Rightarrow> 'a option \<Rightarrow> 'a arrays \<times> slice" where
  "go_append growslice h s x =
     (if len s < cap s
      then (h[ptr s := (h ! ptr s)[len s := x]], s\<lparr>len := len s + 1\<rparr>)
      else (let newcap = max (len s + 1) (growslice (cap s))
            in (h @ [slice_elems h s @ [x] @ replicate (newcap - (len s + 1)) None],
                \<lparr>ptr = length h, len = len s + 1, cap = newcap\<rparr>)))"

record query =
  parts :: slice

definition New :: "'a arrays \<Rightarrow> 'a option \<Rightarrow> 'a arrays \<times> query" where
  "New h part = (h @ [[part]], \<lparr>parts = \<lparr>ptr = length h, len = 1, cap = 1\<rparr>\<rparr>)"

definition query_And ::
  "(nat \<Rightarrow> nat) \<Rightarrow> 'a arrays \<Rightarrow> query \<Rightarrow> 'a option \<Rightarrow> 'a arrays \<times> query" where
  "query_And growslice h q part =
     (let (h', s') = go_append growslice h (parts q) part in (h', q\<lparr>parts := s'\<rparr>))"

definition query_Parts :: "'a arrays \<Rightarrow> query \<Rightarrow> 'a option list" where
  "query_Parts h q = slice_elems h (parts q)"

text \<open>The growth of small slices in the Go runtime: the capacity doubles.\<close>

definition double_cap :: "nat \<Rightarrow> nat" where
  "double_cap c = 2 * c"

section \<open>The value extractor\<close>

text \<open>
  A panic is an outcome of its own: \<open>ScalarMustParse\<close> panics with the error of
  \<open>ScalarParse\<close>, and a failed type assertion (\<open>list.([]interface{})\<close>) panics with a
  runtime error.
\<close>

datatype panic = PanicError error | PanicTypeAssertion

definition ScalarMustParse :: "any \<Rightarrow> panic + Scalar" where
  "ScalarMustParse v =
     (case ScalarParse v of Inl err \<Rightarrow> Inl (PanicError err) | Inr s \<Rightarrow> Inr s)"

text \<open>The loop \<open>for i, s := range castList { scalars[i] = ScalarMustParse(s) }\<close>.\<close>

fun mustParseEach :: "any list \<Rightarrow> panic + Scalar list" where
  "mustParseEach [] = Inr []"
| "mustParseEach (s # castList) =
     (case ScalarMustParse s of
        Inl p \<Rightarrow> Inl p
      | Inr x \<Rightarrow> (case mustParseEach castList of Inl p \<Rightarrow> Inl p | Inr xs \<Rightarrow> Inr (x # xs)))"

text \<open>
  The block of \<open>valuesFromMapAtPath\<close> under \<open>termPath.IsEmpty()\<close>: \<open>Some r\<close> when one of
  its four branches returns \<open>r\<close>, \<open>None\<close> when control leaves the block and goes on to the
  lookup of \<open>termPath.Head()\<close>.
\<close>

definition nodeScalars :: "(string \<times> any) list \<Rightarrow> (panic + Scalar list) option" where
  "nodeScalars expanded =
     (case map_of expanded ''@value'' of
        Some v \<Rightarrow> Some (case ScalarMustParse v of Inl p \<Rightarrow> Inl p | Inr s \<Rightarrow> Inr [s])
      | None \<Rightarrow>
     (case map_of expanded ''@id'' of
        Some i \<Rightarrow> Some (case ScalarMustParse i of Inl p \<Rightarrow> Inl p | Inr s \<Rightarrow> Inr [s])
      | None \<Rightarrow>
     (case map_of expanded ''@list'' of
        Some l \<Rightarrow>
          Some (case l of ASlice castList \<Rightarrow> mustParseEach castList
                | _ \<Rightarrow> Inl PanicTypeAssertion)
      | None \<Rightarrow>
     (case map_of expanded ''@set'' of
        Some l \<Rightarrow>
          Some (case l of ASlice castSet \<Rightarrow> mustParseEach castSet
                | _ \<Rightarrow> Inl PanicTypeAssertion)
      | None \<Rightarrow> None))))"

lemma size_map_of:
  "map_of m k = Some v \<Longrightarrow> size v < Suc (size_list (size_prod (\<lambda>_. 0) size) m)"
  by (induction m) (auto split: if_splits)

lemma size_entry:
  "(k, v) \<in> set m \<Longrightarrow> size v < Suc (size_list (size_prod (\<lambda>_. 0) size) m)"
  by (induction m) auto

lemma size_elem: "x \<in> set xs \<Longrightarrow> size x < Suc (size_list size xs)"
  by (induction xs) auto

function valuesFromSliceAtPath :: "any list \<Rightarrow> TermPath \<Rightarrow> panic + Scalar list"
  and valuesFromMapAtPath :: "(string \<times> any) list \<Rightarrow> TermPath \<Rightarrow> panic + Scalar list" where
  "valuesFromSliceAtPath [] termPath = Inr []"
| "valuesFromSliceAtPath (sub # rest) termPath =
     (case (case sub of
              ASlice typedSub \<Rightarrow> valuesFromSliceAtPath typedSub termPath
            | AMap typedSub \<Rightarrow> valuesFromMapAtPath typedSub termPath
            | _ \<Rightarrow> Inr []) of
        Inl p \<Rightarrow> Inl p
      | Inr vs \<Rightarrow>
          (case valuesFromSliceAtPath rest termPath of
             Inl p \<Rightarrow> Inl p
           | Inr ws \<Rightarrow> Inr (vs @ ws)))"
| "valuesFromMapAtPath expanded termPath =
     (case (if IsEmpty termPath then nodeScalars expanded else None) of
        Some r \<Rightarrow> r
      | None \<Rightarrow>
          (case map_of expanded (Head termPath) of
             Some (ASlice next) \<Rightarrow> valuesFromSliceAtPath next (Tail termPath)
           | Some _ \<Rightarrow> Inr []
           | None \<Rightarrow> Inr []))"
  by pat_completeness auto
termination
  apply (relation "measure (\<lambda>x. case x of Inl (xs, tp) \<Rightarrow> size_list size xs
                               | Inr (m, tp) \<Rightarrow> size_list (size_prod (\<lambda>_. 0) size) m)")
      apply simp_all
  apply (auto dest: size_map_of)
  done

text \<open>
  \<open>ValuesAtPath\<close>. The JSON decoder and the JSON-LD processor are collaborators outside
  the package: \<open>json_Unmarshal\<close> and \<open>Expand\<close> are parameters, and their errors are values
  of their own types, returned as they are. The result is a panic, or what the function
  returns: an error or the scalars.
\<close>

definition ValuesAtPath ::
  "(Document \<Rightarrow> json_error + any) \<Rightarrow> (any \<Rightarrow> ld_error + any list) \<Rightarrow>
   Document \<Rightarrow> TermPath \<Rightarrow> panic + (error + Scalar list)" where
  "ValuesAtPath json_Unmarshal Expand document termPath =
     (if length (Terms termPath) = 0 then Inr (Inr [])
      else (case json_Unmarshal document of
              Inl err \<Rightarrow> Inr (Inl (JSONError err))
            | Inr input \<Rightarrow>
                (case Expand input of
                   Inl err \<Rightarrow> Inr (Inl (LDError err))
                 | Inr expanded \<Rightarrow>
                     (case valuesFromSliceAtPath expanded termPath of
                        Inl p \<Rightarrow> Inl p
                      | Inr scalars \<Rightarrow> Inr (Inr scalars)))))"

subsection \<open>The recursion of the specification\<close>

text \<open>
  The extractor as the specification words it, over a node and the remaining path. At a
  list node: the concatenation over the elements. At a map node with no remaining path:
  the parsed \<open>@value\<close> if present, else the parsed \<open>@id\<close>, else the parsed elements of
  \<open>@list\<close> in order, else those of \<open>@set\<close>, else nothing. At a map node with a remaining
  path: the recursion into the entry of the head key if it is a list, nothing otherwise.
  A scalar where a list or map was expected gives nothing. Where \<open>parse\<close> fails the
  recursion fails with its error.
\<close>

fun spec_parse_all :: "any list \<Rightarrow> error + Scalar list" where
  "spec_parse_all [] = Inr []"
| "spec_parse_all (v # vs) =
     (case ScalarParse v of
        Inl e \<Rightarrow> Inl e
      | Inr s \<Rightarrow> (case spec_parse_all vs of Inl e \<Rightarrow> Inl e | Inr ss \<Rightarrow> Inr (s # ss)))"

fun spec_concat :: "(error + Scalar list) list \<Rightarrow> error + Scalar list" where
  "spec_concat [] = Inr []"
| "spec_concat (r # rs) =
     (case r of
        Inl e \<Rightarrow> Inl e
      | Inr xs \<Rightarrow> (case spec_concat rs of Inl e \<Rightarrow> Inl e | Inr ys \<Rightarrow> Inr (xs @ ys)))"

definition list_elems :: "any \<Rightarrow> any list" where
  "list_elems v = (case v of ASlice xs \<Rightarrow> xs | _ \<Rightarrow> [])"

function spec_values :: "any \<Rightarrow> string list \<Rightarrow> error + Scalar list" where
  "spec_values (ASlice xs) path = spec_concat (map (\<lambda>x. spec_values x path) xs)"
| "spec_values (AMap m) [] =
     (case map_of m ''@value'' of
        Some v \<Rightarrow> spec_parse_all [v]
      | None \<Rightarrow>
     (case map_of m ''@id'' of
        Some i \<Rightarrow> spec_parse_all [i]
      | None \<Rightarrow>
     (case map_of m ''@list'' of
        Some l \<Rightarrow> spec_parse_all (list_elems l)
      | None \<Rightarrow>
     (case map_of m ''@set'' of
        Some l \<Rightarrow> spec_parse_all (list_elems l)
      | None \<Rightarrow> Inr []))))"
| "spec_values (AMap m) (h # t) =
     (case map_of m h of
        Some (ASlice xs) \<Rightarrow> spec_values (ASlice xs) t
      | Some _ \<Rightarrow> Inr []
      | None \<Rightarrow> Inr [])"
| "spec_values ANil path = Inr []"
| "spec_values (ABool b) path = Inr []"
| "spec_values (AString s) path = Inr []"
| "spec_values (AFloat64 f) path = Inr []"
| "spec_values (AUint32 w) path = Inr []"
| "spec_values (ABytes bs) path = Inr []"
  by pat_completeness auto
termination
  apply (relation "measure (\<lambda>(v, path). size v)")
    apply simp_all
   apply (auto dest: size_elem size_map_of)
  done

text \<open>
  The trees a JSON-LD expansion produces: no map has the empty string as a key (keys
  are keywords or absolute IRIs), and \<open>@list\<close> and \<open>@set\<close> hold lists.
\<close>

function expanded_ok :: "any \<Rightarrow> bool" where
  "expanded_ok (ASlice xs) = list_all expanded_ok xs"
| "expanded_ok (AMap m) =
     (map_of m [] = None \<and>
      (case map_of m ''@list'' of Some l \<Rightarrow> (\<exists>xs. l = ASlice xs) | None \<Rightarrow> True) \<and>
      (case map_of m ''@set'' of Some l \<Rightarrow> (\<exists>xs. l = ASlice xs) | None \<Rightarrow> True) \<and>
      list_all (\<lambda>kv. expanded_ok (snd kv)) m)"
| "expanded_ok ANil = True"
| "expanded_ok (ABool b) = True"
| "expanded_ok (AString s) = True"
| "expanded_ok (AFloat64 f) = True"
| "expanded_ok (AUint32 w) = True"
| "expanded_ok (ABytes bs) = True"
  by pat_completeness auto
termination
  apply (relation "measure size")
    apply simp_all
   apply (auto dest: size_elem size_entry)
  done

definition as_panic :: "error + 'a \<Rightarrow> panic + 'a" where
  "as_panic r = (case r of Inl e \<Rightarrow> Inl (PanicError e) | Inr x \<Rightarrow> Inr x)"

subsection \<open>Two documents\<close>

text \<open>
  The collaborators at two documents: a JSON-LD document of one node, as the decoder
  reads it and as the processor expands it, and the empty document, which
  \<open>json.Unmarshal\<close> rejects ("unexpected end of JSON input").
\<close>

definition jane_document :: Document where
  \<open>jane_document = bytes_of_string
     ''{"@id": "http://example.org/jane", "http://schema.org/name": "Jane Doe"}''\<close>

definition jane_json :: any where
  "jane_json = AMap [(''@id'', AString ''http://example.org/jane''),
                     (''http://schema.org/name'', AString ''Jane Doe'')]"

definition jane_expanded :: "any list" where
  "jane_expanded =
     [AMap [(''@id'', AString ''http://example.org/jane''),
            (''http://schema.org/name'', ASlice [AMap [(''@value'', AString ''Jane Doe'')]])]]"

definition example_Unmarshal :: "Document \<Rightarrow> json_error + any" where
  "example_Unmarshal document =
     (if document = jane_document then Inr jane_json
      else Inl (SyntaxError ''unexpected end of JSON input''))"

definition example_Expand :: "any \<Rightarrow> ld_error + any list" where
  "example_Expand input = (if input = jane_json then Inr jane_expanded else Inr [])"

section \<open>The store\<close>

text \<open>
  The key/value store is a collaborator; what the collection uses of it is modelled
  directly. A bucket of plain values is an association list kept in the
  byte-lexicographic order of its keys, which is the order a cursor walks it in. The
  bucket of a collection holds the nested bucket \<open>_documents\<close> (absent until it is
  created) and the nested buckets of the indices, by name; an index bucket maps a
  packed key to the references stored under it. The database maps the name of a
  collection to its bucket. \<open>Put\<close> refuses the empty key and
  \<open>CreateBucketIfNotExists\<close> the empty name; other failures of the store (I/O, size
  limits) are outside the model.
\<close>

type_synonym index_bucket = "(Key \<times> Reference list) list"
type_synonym index_buckets = "(byte list \<times> index_bucket) list"

record bucket =
  documents :: "(Reference \<times> Document) list option"
  indices :: index_buckets

type_synonym db = "(byte list \<times> bucket) list"

fun kv_Put :: "byte list \<Rightarrow> 'v \<Rightarrow> (byte list \<times> 'v) list \<Rightarrow> (byte list \<times> 'v) list" where
  "kv_Put k v [] = [(k, v)]"
| "kv_Put k v ((k', v') # rest) =
     (if k < k' then (k, v) # (k', v') # rest
      else if k = k' then (k, v) # rest
      else (k', v') # kv_Put k v rest)"

definition kv_Delete :: "byte list \<Rightarrow> (byte list \<times> 'v) list \<Rightarrow> (byte list \<times> 'v) list" where
  "kv_Delete k m = filter (\<lambda>kv. fst kv \<noteq> k) m"

definition documentBucket :: string where
  "documentBucket = ''_documents''"

definition documentBucketByteRef :: "byte list" where
  "documentBucketByteRef = bytes_of_string documentBucket"

definition empty_bucket :: bucket where
  "empty_bucket = \<lparr>documents = None, indices = []\<rparr>"

definition tx_Bucket :: "byte list \<Rightarrow> db \<Rightarrow> bucket option" where
  "tx_Bucket name tx = map_of tx name"

definition tx_CreateBucketIfNotExists :: "byte list \<Rightarrow> db \<Rightarrow> error + bucket" where
  "tx_CreateBucketIfNotExists name tx =
     (if name = [] then Inl (OtherError ''bucket name required'')
      else (case map_of tx name of None \<Rightarrow> Inr empty_bucket | Some b \<Rightarrow> Inr b))"

text \<open>A transaction body works on the value of the collection's bucket; \<open>tx_store\<close> puts
  the bucket back under its name when the body returns without error.\<close>

definition tx_store :: "byte list \<Rightarrow> bucket \<Rightarrow> db \<Rightarrow> db" where
  "tx_store name b tx = kv_Put name b tx"

definition bucket_Bucket_exists :: "byte list \<Rightarrow> bucket \<Rightarrow> bool" where
  "bucket_Bucket_exists name b =
     (if name = documentBucketByteRef then documents b \<noteq> None
      else map_of (indices b) name \<noteq> None)"

definition bucket_CreateBucketIfNotExists :: "byte list \<Rightarrow> bucket \<Rightarrow> error + bucket" where
  "bucket_CreateBucketIfNotExists name b =
     (if name = [] then Inl (OtherError ''bucket name required'')
      else if name = documentBucketByteRef
      then Inr (case documents b of None \<Rightarrow> b\<lparr>documents := Some []\<rparr> | Some _ \<Rightarrow> b)
      else Inr (case map_of (indices b) name of
                  None \<Rightarrow> b\<lparr>indices := kv_Put name [] (indices b)\<rparr>
                | Some _ \<Rightarrow> b))"

definition docBucket_Put :: "Reference \<Rightarrow> Document \<Rightarrow> bucket \<Rightarrow> error + bucket" where
  "docBucket_Put ref doc b =
     (if ref = [] then Inl (OtherError ''key required'')
      else Inr (b\<lparr>documents := map_option (kv_Put ref doc) (documents b)\<rparr>))"

definition docBucket_Delete :: "Reference \<Rightarrow> bucket \<Rightarrow> error + bucket" where
  "docBucket_Delete ref b = Inr (b\<lparr>documents := map_option (kv_Delete ref) (documents b)\<rparr>)"

definition db_Update :: "(db \<Rightarrow> error + db) \<Rightarrow> db \<Rightarrow> error option \<times> db" where
  "db_Update fn d = (case fn d of Inl err \<Rightarrow> (Some err, d) | Inr d' \<Rightarrow> (None, d'))"

section \<open>The collection\<close>

text \<open>
  \<open>Index\<close> is an interface: a value of it is the record of its methods. The collection
  calls \<open>Name\<close>, \<open>BucketName\<close>, \<open>IsMatch\<close>, \<open>Add\<close> and \<open>Delete\<close>; the implementation of the
  package (\<open>index.go\<close>) is not part of the sources at hand, and every statement below
  holds for any implementation. \<open>Add\<close> and \<open>Delete\<close> work in the nested buckets of the
  indices (the persisted layout keeps every index under a bucket of its own, beside
  \<open>_documents\<close>). The match score is a real number. The type of queries is a parameter:
  the collection only tests a query against nil and hands it on.
\<close>

type_synonym ReferenceFunc = "Document \<Rightarrow> Reference"

record 'q Index =
  index_Name :: string
  index_BucketName :: "byte list"
  index_IsMatch :: "'q \<Rightarrow> real"
  index_Add :: "index_buckets \<Rightarrow> Reference \<Rightarrow> Document \<Rightarrow> error + index_buckets"
  index_Delete :: "index_buckets \<Rightarrow> Reference \<Rightarrow> Document \<Rightarrow> error + index_buckets"

record 'q collection =
  Name :: string
  IndexList :: "'q Index list"
  refMake :: ReferenceFunc

definition Reference_of :: "'q collection \<Rightarrow> Document \<Rightarrow> Reference" where
  "Reference_of c doc = refMake c doc"

fun add_indices :: "'q Index list \<Rightarrow> Reference \<Rightarrow> Document \<Rightarrow> bucket \<Rightarrow> error + bucket" where
  "add_indices [] ref doc b = Inr b"
| "add_indices (i # rest) ref doc b =
     (case index_Add i (indices b) ref doc of
        Inl err \<Rightarrow> Inl err
      | Inr ix \<Rightarrow> add_indices rest ref doc (b\<lparr>indices := ix\<rparr>))"

fun add_docs :: "'q collection \<Rightarrow> Document list \<Rightarrow> bucket \<Rightarrow> error + bucket" where
  "add_docs c [] b = Inr b"
| "add_docs c (doc # rest) b =
     (let ref = refMake c doc in
      case add_indices (IndexList c) ref doc b of
        Inl err \<Rightarrow> Inl err
      | Inr b1 \<Rightarrow>
          (case docBucket_Put ref doc b1 of
             Inl err \<Rightarrow> Inl err
           | Inr b2 \<Rightarrow> add_docs c rest b2))"

definition add :: "'q collection \<Rightarrow> Document list \<Rightarrow> db \<Rightarrow> error + db" where
  "add c jsonSet tx =
     (case tx_CreateBucketIfNotExists (bytes_of_string (Name c)) tx of
        Inl err \<Rightarrow> Inl err
      | Inr b \<Rightarrow>
          (case bucket_CreateBucketIfNotExists documentBucketByteRef b of
             Inl err \<Rightarrow> Inl err
           | Inr b1 \<Rightarrow>
               (case add_docs c jsonSet b1 of
                  Inl err \<Rightarrow> Inl err
                | Inr b2 \<Rightarrow> Inr (tx_store (bytes_of_string (Name c)) b2 tx))))"

definition Add :: "'q collection \<Rightarrow> Document list \<Rightarrow> db \<Rightarrow> error option \<times> db" where
  "Add c jsonSet d = db_Update (add c jsonSet) d"

definition collection_documentBucket :: "'q collection \<Rightarrow> db \<Rightarrow> (Reference \<times> Document) list option" where
  "collection_documentBucket c tx =
     (case tx_Bucket (bytes_of_string (Name c)) tx of
        None \<Rightarrow> None
      | Some b \<Rightarrow> documents b)"

definition Get :: "'q collection \<Rightarrow> Reference \<Rightarrow> db \<Rightarrow> Document option \<times> error option" where
  "Get c key d =
     (let data = (case collection_documentBucket c d of
                    None \<Rightarrow> None
                  | Some docs \<Rightarrow> map_of docs key);
          err = None
      in if data = None then (None, None) else (data, err))"

fun delete_indices :: "'q Index list \<Rightarrow> Reference \<Rightarrow> Document \<Rightarrow> bucket \<Rightarrow> error + bucket" where
  "delete_indices [] ref doc b = Inr b"
| "delete_indices (i # rest) ref doc b =
     (case index_Delete i (indices b) ref doc of
        Inl err \<Rightarrow> Inl err
      | Inr ix \<Rightarrow> delete_indices rest ref doc (b\<lparr>indices := ix\<rparr>))"

definition delete :: "'q collection \<Rightarrow> Document \<Rightarrow> db \<Rightarrow> error + db" where
  "delete c doc tx =
     (case tx_Bucket (bytes_of_string (Name c)) tx of
        None \<Rightarrow> Inr tx
      | Some b \<Rightarrow>
          (let ref = refMake c doc in
           case collection_documentBucket c tx of
             None \<Rightarrow> Inr tx
           | Some docs \<Rightarrow>
               (case docBucket_Delete ref b of
                  Inl err \<Rightarrow> Inl err
                | Inr b1 \<Rightarrow>
                    (case delete_indices (IndexList c) ref doc b1 of
                       Inl err \<Rightarrow> Inl err
                     | Inr b2 \<Rightarrow> Inr (tx_store (bytes_of_string (Name c)) b2 tx)))))"

definition Delete :: "'q collection \<Rightarrow> Document \<Rightarrow> db \<Rightarrow> error option \<times> db" where
  "Delete c doc d = db_Update (delete c doc) d"

text \<open>The cursor loop of \<open>AddIndex\<close> over the document bucket, in key order;
  \<open>stored_documents\<close> is what the cursor walks.\<close>

definition stored_documents :: "bucket \<Rightarrow> (Reference \<times> Document) list" where
  "stored_documents b = (case documents b of None \<Rightarrow> [] | Some docs \<Rightarrow> docs)"

fun backfill :: "'q Index \<Rightarrow> (Reference \<times> Document) list \<Rightarrow> bucket \<Rightarrow> error + bucket" where
  "backfill index [] b = Inr b"
| "backfill index ((ref, rawDoc) # rest) b =
     (case index_Add index (indices b) ref rawDoc of
        Inl err \<Rightarrow> Inl err
      | Inr ix \<Rightarrow> backfill index rest (b\<lparr>indices := ix\<rparr>))"

definition addIndex_tx :: "'q collection \<Rightarrow> 'q Index \<Rightarrow> db \<Rightarrow> error + db" where
  "addIndex_tx c index tx =
     (case tx_CreateBucketIfNotExists (bytes_of_string (Name c)) tx of
        Inl err \<Rightarrow> Inl err
      | Inr b \<Rightarrow>
          if bucket_Bucket_exists (index_BucketName index) b
          then Inr (tx_store (bytes_of_string (Name c)) b tx)
          else (case bucket_CreateBucketIfNotExists documentBucketByteRef b of
                  Inl err \<Rightarrow> Inl err
                | Inr gb \<Rightarrow>
                    (case backfill index (stored_documents gb) gb of
                       Inl err \<Rightarrow> Inl err
                     | Inr b2 \<Rightarrow> Inr (tx_store (bytes_of_string (Name c)) b2 tx))))"

fun AddIndex ::
  "'q collection \<Rightarrow> 'q Index list \<Rightarrow> db \<Rightarrow> error option \<times> 'q collection \<times> db" where
  "AddIndex c [] d = (None, c, d)"
| "AddIndex c (index # indexes) d =
     (if list_ex (\<lambda>i. index_Name i = index_Name index) (IndexList c) then (None, c, d)
      else (case db_Update (addIndex_tx c index) d of
              (Some err, d') \<Rightarrow> (Some err, c, d')
            | (None, d') \<Rightarrow> AddIndex (c\<lparr>IndexList := IndexList c @ [index]\<rparr>) indexes d'))"

subsection \<open>Query plans\<close>

datatype 'q queryPlan =
    fullTableScanQueryPlan "'q option"
  | resultScanQueryPlan "'q option" "'q Index"
  | indexScanQueryPlan "'q option" "'q Index"

text \<open>The loop of \<open>findIndex\<close>, with its two variables \<open>cIndex\<close> and \<open>cMatch\<close>.\<close>

fun findIndex_loop :: "'q Index list \<Rightarrow> 'q \<Rightarrow> 'q Index option \<Rightarrow> real \<Rightarrow> 'q Index option" where
  "findIndex_loop [] q cIndex cMatch = cIndex"
| "findIndex_loop (i # rest) q cIndex cMatch =
     (let m = index_IsMatch i q in
      if m > cMatch then findIndex_loop rest q (Some i) m
      else findIndex_loop rest q cIndex cMatch)"

definition findIndex :: "'q collection \<Rightarrow> 'q option \<Rightarrow> 'q Index option" where
  "findIndex c query =
     (case query of None \<Rightarrow> None | Some q \<Rightarrow> findIndex_loop (IndexList c) q None 0)"

definition queryPlan :: "'q collection \<Rightarrow> 'q option \<Rightarrow> error + 'q queryPlan" where
  "queryPlan c query =
     (if query = None then Inl ErrNoQuery
      else (case findIndex c query of
              None \<Rightarrow> Inr (fullTableScanQueryPlan query)
            | Some index \<Rightarrow> Inr (resultScanQueryPlan query index)))"

text \<open>
  A walker is a callback with effects on the variables it captures: it takes and
  returns their state. The \<open>execute\<close> methods of the plans are not part of the sources at
  hand: \<open>execute\<close> is a parameter of \<open>Iterate\<close>, \<open>IndexIterate\<close> and \<open>Find\<close>.
\<close>

type_synonym 's walker = "Reference \<Rightarrow> byte list \<Rightarrow> 's \<Rightarrow> error option \<times> 's"

definition Iterate ::
  "('q queryPlan \<Rightarrow> 's walker \<Rightarrow> 's \<Rightarrow> error option \<times> 's) \<Rightarrow> 'q collection \<Rightarrow> 'q option \<Rightarrow>
   's walker \<Rightarrow> 's \<Rightarrow> error option \<times> 's" where
  "Iterate execute c query fn s =
     (case queryPlan c query of
        Inl err \<Rightarrow> (Some err, s)
      | Inr plan \<Rightarrow>
          (case execute plan fn s of
             (Some err, s') \<Rightarrow> (Some err, s')
           | (None, s') \<Rightarrow> (None, s')))"

definition IndexIterate ::
  "('q queryPlan \<Rightarrow> 's walker \<Rightarrow> 's \<Rightarrow> error option \<times> 's) \<Rightarrow> 'q collection \<Rightarrow> 'q option \<Rightarrow>
   's walker \<Rightarrow> 's \<Rightarrow> error option \<times> 's" where
  "IndexIterate execute c query fn s =
     (case findIndex c query of
        None \<Rightarrow> (Some ErrNoIndex, s)
      | Some index \<Rightarrow> execute (indexScanQueryPlan query index) fn s)"

text \<open>
  \<open>Find\<close>. The cancellation handle is read through \<open>ctx.Err()\<close> once per call of the
  walker; \<open>ctx n\<close> is what it returns when \<open>n\<close> documents have been collected. The result
  is the pair that \<open>Find\<close> returns: the documents (\<open>None\<close> is nil) and the error.
\<close>

definition find_walker :: "(nat \<Rightarrow> error option) \<Rightarrow> Document list walker" where
  "find_walker ctx key v docs =
     (case ctx (length docs) of
        Some err \<Rightarrow> (Some err, docs)
      | None \<Rightarrow> (None, docs @ [v]))"

definition Find ::
  "('q queryPlan \<Rightarrow> Document list walker \<Rightarrow> Document list \<Rightarrow> error option \<times> Document list) \<Rightarrow>
   'q collection \<Rightarrow> (nat \<Rightarrow> error option) \<Rightarrow> 'q option \<Rightarrow> Document list option \<times> error option" where
  "Find execute c ctx query =
     (case Iterate execute c query (find_walker ctx) [] of
        (Some err, docs) \<Rightarrow> (None, Some err)
      | (None, docs) \<Rightarrow> (Some docs, None))"

text \<open>
  Modelled from the spec: the \<open>execute\<close> methods of the three query plans, which are
  missing from the sources. The specification has a plan stream the matching references
  and documents to the caller's walker, a walker error abort the iteration and
  propagate as it is, and the walker not be invoked again after it. What a plan finds
  in the store is the parameter \<open>emitted\<close>: the pairs it hands to the walker, in order,
  and the error of its own (of the store or of the extraction) it ends with, if any.
\<close>

fun feed :: "'s walker \<Rightarrow> (Reference \<times> byte list) list \<Rightarrow> 's \<Rightarrow> error option \<times> 's" where
  "feed fn [] s = (None, s)"
| "feed fn ((k, v) # rest) s =
     (case fn k v s of
        (Some err, s') \<Rightarrow> (Some err, s')
      | (None, s') \<Rightarrow> feed fn rest s')"

definition walk_plan ::
  "('q queryPlan \<Rightarrow> (Reference \<times> byte list) list \<times> error option) \<Rightarrow>
   'q queryPlan \<Rightarrow> 's walker \<Rightarrow> 's \<Rightarrow> error option \<times> 's" where
  "walk_plan emitted plan fn s =
     (case feed fn (fst (emitted plan)) s of
        (Some err, s') \<Rightarrow> (Some err, s')
      | (None, s') \<Rightarrow> (snd (emitted plan), s'))"

subsection \<open>A collection for the examples\<close>

text \<open>
  Stand-ins for what the sources at hand do not hold. The reference function is
  injectable: \<open>example_ref\<close> prefixes the document with one byte. \<open>example_index\<close> is an
  implementation of the interface \<open>Index\<close> that files a reference under the bytes of the
  whole document in the bucket of its name; like the index of the package (test "error -
  illegal document format") its \<open>Add\<close> fails on the empty document. Its score is the given
  number on a query with a part on \<open>http://schema.org/name\<close>, and 0 otherwise.
  \<open>test_collection\<close> is \<open>createCollection\<close> of the tests with the given indices.
  \<open>noindex_walker\<close> is a walker of a caller that returns \<open>ErrNoIndex\<close> (the tests pass
  walkers that return an error of their own).
\<close>

definition example_ref :: ReferenceFunc where
  "example_ref doc = 0x72 # doc"

definition example_Add ::
  "byte list \<Rightarrow> index_buckets \<Rightarrow> Reference \<Rightarrow> Document \<Rightarrow> error + index_buckets" where
  "example_Add bname ix ref doc =
     (if doc = [] then Inl (JSONError (SyntaxError ''unexpected end of JSON input''))
      else (let b = (case map_of ix bname of None \<Rightarrow> [] | Some b \<Rightarrow> b);
                refs = (case map_of b doc of None \<Rightarrow> [] | Some rs \<Rightarrow> rs)
            in Inr (kv_Put bname
                      (kv_Put doc (if ref \<in> set refs then refs else refs @ [ref]) b) ix)))"

definition example_Delete ::
  "byte list \<Rightarrow> index_buckets \<Rightarrow> Reference \<Rightarrow> Document \<Rightarrow> error + index_buckets" where
  "example_Delete bname ix ref doc =
     (case map_of ix bname of
        None \<Rightarrow> Inr ix
      | Some b \<Rightarrow>
          (let refs = removeAll ref (case map_of b doc of None \<Rightarrow> [] | Some rs \<Rightarrow> rs)
           in Inr (kv_Put bname (if refs = [] then kv_Delete doc b else kv_Put doc refs b) ix)))"

definition example_index :: "string \<Rightarrow> real \<Rightarrow> (QueryPart list) Index" where
  "example_index nm score =
     \<lparr>index_Name = nm,
      index_BucketName = bytes_of_string nm,
      index_IsMatch =
        (\<lambda>q. if list_ex (\<lambda>p. QueryPart_TermPath p = TermPath [''http://schema.org/name'']) q
              then score else 0),
      index_Add = example_Add (bytes_of_string nm),
      index_Delete = example_Delete (bytes_of_string nm)\<rparr>"

definition test_collection :: "(QueryPart list) Index list \<Rightarrow> (QueryPart list) collection" where
  "test_collection ixs = \<lparr>Name = ''test'', IndexList = ixs, refMake = example_ref\<rparr>"

definition jane_query :: "QueryPart list" where
  "jane_query = [Eq (TermPath [''http://schema.org/name'']) (Scalar (AString ''Jane Doe''))]"

definition doc1 :: Document where
  "doc1 = [0x7B, 0x7D]"

definition doc2 :: Document where
  "doc2 = [0x5B, 0x5D]"

definition ctx_background :: "nat \<Rightarrow> error option" where
  "ctx_background n = None"

definition ctx_cancelled :: "nat \<Rightarrow> error option" where
  "ctx_cancelled n = Some Canceled"

definition emits_nothing :: "(QueryPart list) queryPlan \<Rightarrow> (Reference \<times> byte list) list \<times> error option" where
  "emits_nothing plan = ([], None)"

definition noindex_walker :: "unit walker" where
  "noindex_walker key v s = (Some ErrNoIndex, s)"

definition emits_doc1 :: "(QueryPart list) queryPlan \<Rightarrow> (Reference \<times> byte list) list \<times> error option" where
  "emits_doc1 plan = ([(example_ref doc1, doc1)], None)"



section \<open>Properties of scalars\<close>

lemma ucast_lane:
  "k + 8 \<le> 64 \<Longrightarrow>
   bit (push_bit k (ucast (ucast (drop_bit k (v::64 word)) :: byte) :: 64 word)) n
     = (k \<le> n \<and> n < k + 8 \<and> bit v n)"
  by (auto simp add: bit_simps dest: bit_imp_le_length)

lemma ucast_lane0:
  "bit (ucast (ucast (v::64 word) :: byte) :: 64 word) n = (n < 8 \<and> bit v n)"
  using ucast_lane [of 0 v n] by simp

lemma Uint64_PutUint64: "Uint64 (PutUint64 v) = Some v"
proof -
  have "bit (ucast (ucast v :: byte) OR push_bit 8 (ucast (ucast (drop_bit 8 v) :: byte))
       OR push_bit 16 (ucast (ucast (drop_bit 16 v) :: byte))
       OR push_bit 24 (ucast (ucast (drop_bit 24 v) :: byte))
       OR push_bit 32 (ucast (ucast (drop_bit 32 v) :: byte))
       OR push_bit 40 (ucast (ucast (drop_bit 40 v) :: byte))
       OR push_bit 48 (ucast (ucast (drop_bit 48 v) :: byte))
       OR push_bit 56 (ucast (ucast (drop_bit 56 v) :: byte)) :: 64 word) n = bit v n" for n
  proof (cases "n < 64")
    case True
    then show ?thesis
      unfolding bit_or_iff ucast_lane0 by (simp only: ucast_lane) arith
  next
    case False
    then have "\<not> bit v n" using bit_imp_le_length [of v n] by auto
    then show ?thesis unfolding bit_or_iff ucast_lane0 by (simp only: ucast_lane) simp
  qed
  then show ?thesis
    by (simp add: PutUint64_def bit_eq_iff)
qed

lemma unat_byte:
  "unat (ucast (drop_bit k (v::64 word)) :: byte) = take_bit 8 (drop_bit k (unat v))"
  by (simp add: unsigned_ucast_eq unat_drop_bit_eq)

lemma horner_step:
  "256 * drop_bit (k + 8) (n::nat) + take_bit 8 (drop_bit k n) = drop_bit k n"
proof -
  have "drop_bit (k + 8) n = drop_bit k n div 256"
    by (simp add: drop_bit_eq_div power_add div_mult2_eq)
  then show ?thesis by (simp add: take_bit_eq_mod)
qed

lemma be_nat_PutUint64: "be_nat (PutUint64 v) = unat v"
proof -
  define n where "n = unat v"
  have lt: "n < 2 ^ 64" unfolding n_def using unsigned_less [of v] by simp
  have b0: "unat (ucast v :: byte) = take_bit 8 (drop_bit 0 n)"
    using unat_byte [of 0 v] by (simp add: n_def)
  have top: "take_bit 8 (drop_bit 56 n) = drop_bit 56 n"
  proof -
    have "drop_bit 56 n < 2 ^ 8"
      using lt by (simp add: drop_bit_eq_div less_mult_imp_div_less)
    then show ?thesis by (simp add: take_bit_nat_eq_self)
  qed
  have s48: "256 * drop_bit 56 n + take_bit 8 (drop_bit 48 n) = drop_bit 48 n"
    using horner_step [of 48 n] by simp
  have s40: "256 * drop_bit 48 n + take_bit 8 (drop_bit 40 n) = drop_bit 40 n"
    using horner_step [of 40 n] by simp
  have s32: "256 * drop_bit 40 n + take_bit 8 (drop_bit 32 n) = drop_bit 32 n"
    using horner_step [of 32 n] by simp
  have s24: "256 * drop_bit 32 n + take_bit 8 (drop_bit 24 n) = drop_bit 24 n"
    using horner_step [of 24 n] by simp
  have s16: "256 * drop_bit 24 n + take_bit 8 (drop_bit 16 n) = drop_bit 16 n"
    using horner_step [of 16 n] by simp
  have s8: "256 * drop_bit 16 n + take_bit 8 (drop_bit 8 n) = drop_bit 8 n"
    using horner_step [of 8 n] by simp
  have s0: "256 * drop_bit 8 n + take_bit 8 (drop_bit 0 n) = n"
    using horner_step [of 0 n] by simp
  have "be_nat (PutUint64 v) =
    256 * (256 * (256 * (256 * (256 * (256 * (256 * (256 * 0 + take_bit 8 (drop_bit 56 n))
      + take_bit 8 (drop_bit 48 n)) + take_bit 8 (drop_bit 40 n))
      + take_bit 8 (drop_bit 32 n)) + take_bit 8 (drop_bit 24 n))
      + take_bit 8 (drop_bit 16 n)) + take_bit 8 (drop_bit 8 n)) + take_bit 8 (drop_bit 0 n)"
    unfolding be_nat_def PutUint64_def foldl.simps unat_byte b0 n_def [symmetric] ..
  also have "\<dots> = n"
    by (simp only: mult_0_right add_0 top s48 s40 s32 s24 s16 s8 s0)
  finally show ?thesis by (simp add: n_def)
qed

text \<open>
  Claim C6. \<open>ScalarParse\<close> accepts exactly the booleans, the strings and the 64-bit floats,
  returning the scalar that wraps the value, and fails with \<open>ErrInvalidValue\<close> on every
  other kind of value. The bytes of a boolean scalar are the single byte 0x01 or 0x00;
  the bytes of a string scalar are the bytes of the string, nothing appended; the bytes
  of a double are eight bytes whose big-endian value is the IEEE-754 bit pattern.
\<close>

theorem ScalarParse_Bytes_encoding:
  "ScalarParse v =
     (if (\<exists>b. v = ABool b) \<or> (\<exists>s. v = AString s) \<or> (\<exists>f. v = AFloat64 f)
      then Inr (Scalar v) else Inl ErrInvalidValue) \<and>
   Bytes (Scalar (ABool True)) = [0x01] \<and>
   Bytes (Scalar (ABool False)) = [0x00] \<and>
   Bytes (Scalar (AString s)) = map of_char s \<and>
   length (Bytes (Scalar (AString s))) = length s \<and>
   length (Bytes (Scalar (AFloat64 f))) = 8 \<and>
   be_nat (Bytes (Scalar (AFloat64 f))) = unat (Float64bits f)"
proof -
  have parse: "ScalarParse v =
     (if (\<exists>b. v = ABool b) \<or> (\<exists>s. v = AString s) \<or> (\<exists>f. v = AFloat64 f)
      then Inr (Scalar v) else Inl ErrInvalidValue)"
    by (cases v) simp_all
  have len8: "length (Bytes (Scalar (AFloat64 f))) = 8"
    by (simp add: PutUint64_def)
  show ?thesis
    by (intro conjI parse len8) (simp_all add: bytes_of_string_def be_nat_PutUint64)
qed

text \<open>
  Claim C7. Parsing a boolean and decoding the first byte of its encoding as "non-zero"
  gives the boolean back; parsing a double and reading its encoding as a big-endian
  unsigned 64-bit integer, taken as IEEE-754 bits, gives the double back (the same bit
  pattern); the encoding of a parsed string is the byte sequence of the string.
\<close>

theorem Scalar_roundtrip:
  "map_sum id (decode_bool \<circ> Bytes) (ScalarParse (ABool x)) = Inr (Some x) \<and>
   map_sum id (decode_float64 \<circ> Bytes) (ScalarParse (AFloat64 f)) = Inr (Some f) \<and>
   map_sum id Bytes (ScalarParse (AString s)) = Inr (map of_char s)"
  by (simp add: decode_bool_def decode_float64_def Uint64_PutUint64 Float64bits_def
      Float64frombits_def bytes_of_string_def)

section \<open>Properties of query parts\<close>

lemma bytes_Compare_lt: "bytes_Compare a b < 0 \<longleftrightarrow> a < b"
  by (induction a b rule: bytes_Compare.induct) auto

lemma bytes_Compare_eq: "bytes_Compare a b = 0 \<longleftrightarrow> a = b"
  by (induction a b rule: bytes_Compare.induct) auto

lemma bytes_Compare_le: "bytes_Compare a b \<le> 0 \<longleftrightarrow> a \<le> b"
  by (induction a b rule: bytes_Compare.induct) auto

lemma bytes_HasPrefix_prefix: "bytes_HasPrefix s p \<longleftrightarrow> prefix p s"
proof
  assume "bytes_HasPrefix s p"
  then have "take (length p) s = p" by (simp add: bytes_HasPrefix_def)
  then have "s = p @ drop (length p) s" by (metis append_take_drop_id)
  then show "prefix p s" by (metis prefixI)
next
  assume "prefix p s"
  then obtain r where "s = p @ r" by (auto simp: prefix_def)
  then show "bytes_HasPrefix s p" by (simp add: bytes_HasPrefix_def)
qed

text \<open>
  Claim C3. For every key and optional transform: an equality part holds exactly when
  the key equals the bytes of the (transformed) value; a range part exactly when the key
  lies between the bytes of the (transformed) begin and end, both inclusive, in the
  lexicographic order on bytes; a prefix part exactly when the bytes of the (transformed)
  value are a prefix of the key. The key is compared as it is stored; with no transform
  the query scalar is used as it is. \<open>Seek\<close> is the value of an equality or prefix part and
  the begin of a range part.
\<close>

theorem Condition_table:
  "Condition (Eq p v) k t = (k = Bytes (spec_transform t v)) \<and>
   Condition (Range_q p b e) k t =
     (Bytes (spec_transform t b) \<le> k \<and> k \<le> Bytes (spec_transform t e)) \<and>
   Condition (Prefix p v) k t = prefix (Bytes (spec_transform t v)) k \<and>
   spec_transform None v = v \<and>
   Seek (Eq p v) = v \<and> Seek (Prefix p v) = v \<and> Seek (Range_q p b e) = b"
proof -
  have eq: "Condition (Eq p v) k t = (k = Bytes (spec_transform t v))"
    by (cases t) (simp_all add: Eq_def spec_transform_def bytes_Compare_eq)
  have rng: "Condition (Range_q p b e) k t =
     (Bytes (spec_transform t b) \<le> k \<and> k \<le> Bytes (spec_transform t e))"
    by (cases t) (auto simp add: Range_q_def spec_transform_def bytes_Compare_lt
        bytes_Compare_le)
  have pre: "Condition (Prefix p v) k t = prefix (Bytes (spec_transform t v)) k"
    by (cases t) (simp_all add: Prefix_def spec_transform_def bytes_HasPrefix_prefix)
  have sk: "spec_transform None v = v \<and>
      Seek (Eq p v) = v \<and> Seek (Prefix p v) = v \<and> Seek (Range_q p b e) = b"
    by (simp add: Eq_def Range_q_def Prefix_def spec_transform_def)
  show ?thesis by (intro conjI eq rng pre) (simp_all add: sk)
qed

section \<open>Properties of queries\<close>

lemma go_append_spare:
  assumes "slice_ok h s" "len s < cap s"
  shows "slice_elems (fst (go_append g h s x)) (snd (go_append g h s x)) = slice_elems h s @ [x]"
    and "slice_elems (fst (go_append g h s x)) s = slice_elems h s"
    and "slice_ok (fst (go_append g h s x)) (snd (go_append g h s x))"
  using assms
  by (auto simp: go_append_def slice_elems_def slice_ok_def take_Suc_conv_app_nth)

lemma go_append_full:
  assumes "slice_ok h s" "\<not> len s < cap s"
  shows "slice_elems (fst (go_append g h s x)) (snd (go_append g h s x)) = slice_elems h s @ [x]"
    and "slice_elems (fst (go_append g h s x)) s = slice_elems h s"
    and "slice_ok (fst (go_append g h s x)) (snd (go_append g h s x))"
  using assms
  by (auto simp: go_append_def slice_elems_def slice_ok_def Let_def nth_append)

lemma New_slice_ok: "New h p = (h', q) \<Longrightarrow> slice_ok h' (parts q) \<and> query_Parts h' q = [p]"
  by (auto simp: New_def slice_ok_def query_Parts_def slice_elems_def)

text \<open>
  The receiver of one call. For a query \<open>q\<close> whose slice is well formed (as \<open>New\<close> makes
  it and \<open>And\<close> keeps it) and a part \<open>p\<close>: the query that \<open>q.And(p)\<close> returns has the parts
  of \<open>q\<close> followed by \<open>p\<close>, and the parts of \<open>q\<close> itself, read after the call, are what
  they were before. This says nothing of a query that shares the backing array of \<open>q\<close>
  beyond the length of \<open>q\<close>.
\<close>

theorem query_And_appends:
  assumes "slice_ok h (parts q)" and "query_And growslice h q p = (h', q')"
  shows "query_Parts h' q' = query_Parts h q @ [p] \<and> query_Parts h' q = query_Parts h q
     \<and> slice_ok h' (parts q')"
proof -
  obtain h1 s1 where a: "go_append growslice h (parts q) p = (h1, s1)"
    by (cases "go_append growslice h (parts q) p")
  with assms(2) have e: "h' = h1" "parts q' = s1"
    by (auto simp: query_And_def)
  show ?thesis
  proof (cases "len (parts q) < cap (parts q)")
    case True
    from go_append_spare [OF assms(1) True, of growslice p] a e
    show ?thesis by (simp add: query_Parts_def)
  next
    case False
    from go_append_full [OF assms(1) False, of growslice p] a e
    show ?thesis by (simp add: query_Parts_def)
  qed
qed

theorem query_And_appends_witness:
  "slice_ok [[Some (Eq (TermPath [''test'']) (Scalar (AString ''test'')))]]
     (parts \<lparr>parts = \<lparr>ptr = 0, len = 1, cap = 1\<rparr>\<rparr>) \<and>
   query_Parts
     [[Some (Eq (TermPath [''test'']) (Scalar (AString ''test'')))],
      [Some (Eq (TermPath [''test'']) (Scalar (AString ''test''))),
       Some (Prefix (TermPath [''test'']) (Scalar (AString ''te'')))]]
     \<lparr>parts = \<lparr>ptr = 1, len = 2, cap = 2\<rparr>\<rparr>
   = query_Parts [[Some (Eq (TermPath [''test'']) (Scalar (AString ''test'')))]]
       \<lparr>parts = \<lparr>ptr = 0, len = 1, cap = 1\<rparr>\<rparr>
     @ [Some (Prefix (TermPath [''test'']) (Scalar (AString ''te'')))]"
proof -
  have ok: "slice_ok [[Some (Eq (TermPath [''test'']) (Scalar (AString ''test'')))]]
     (parts \<lparr>parts = \<lparr>ptr = 0, len = 1, cap = 1\<rparr>\<rparr>)"
    by (simp add: slice_ok_def)
  have run: "query_And double_cap [[Some (Eq (TermPath [''test'']) (Scalar (AString ''test'')))]]
      \<lparr>parts = \<lparr>ptr = 0, len = 1, cap = 1\<rparr>\<rparr>
      (Some (Prefix (TermPath [''test'']) (Scalar (AString ''te''))))
    = ([[Some (Eq (TermPath [''test'']) (Scalar (AString ''test'')))],
        [Some (Eq (TermPath [''test'']) (Scalar (AString ''test''))),
         Some (Prefix (TermPath [''test'']) (Scalar (AString ''te'')))]],
       \<lparr>parts = \<lparr>ptr = 1, len = 2, cap = 2\<rparr>\<rparr>)"
    by (simp add: query_And_def go_append_def double_cap_def slice_elems_def)
  from query_And_appends [OF ok run] ok show ?thesis by simp
qed

text \<open>
  Claim C10. Queries do not behave as immutable values: two queries made from the same
  receiver share the spare capacity of one array. With the doubling growth of the
  runtime, the query \<open>q2\<close> of three parts sits in an array of four; \<open>q3 = q2.And(4)\<close> and
  then \<open>q2.And(5)\<close> write the same cell, and the parts of \<open>q3\<close>, which were 1, 2, 3, 4
  before the second call, are 1, 2, 3, 5 after it. The parts of the receiver \<open>q2\<close> stay
  1, 2, 3.
\<close>

theorem query_And_shared_array:
  "(let (h0, q0) = New [] (Some (1::nat));
        (h1, q1) = query_And double_cap h0 q0 (Some 2);
        (h2, q2) = query_And double_cap h1 q1 (Some 3);
        (h3, q3) = query_And double_cap h2 q2 (Some 4);
        (h4, q4) = query_And double_cap h3 q2 (Some 5)
    in (query_Parts h3 q3, query_Parts h4 q3, query_Parts h4 q2))
   = ([Some 1, Some 2, Some 3, Some 4], [Some 1, Some 2, Some 3, Some 5],
      [Some 1, Some 2, Some 3])"
  by (simp add: New_def query_And_def go_append_def double_cap_def slice_elems_def
      query_Parts_def)

section \<open>Properties of the value extractor\<close>

lemma as_panic_simps [simp]:
  "as_panic (Inl e) = Inl (PanicError e)" "as_panic (Inr x) = Inr x"
  by (simp_all add: as_panic_def)

lemma IsEmpty_TermPath [simp]: "IsEmpty (TermPath ts) = (ts = [])"
  by (simp add: IsEmpty_def)

lemma Head_TermPath [simp]: "Head (TermPath (h # t)) = h" "Head (TermPath []) = []"
  by (simp_all add: Head_def)

lemma Tail_TermPath [simp]: "Tail (TermPath (h # t)) = TermPath t"
  by (cases t) (simp_all add: Tail_def)

lemma mustParseEach_spec: "mustParseEach xs = as_panic (spec_parse_all xs)"
  by (induction xs) (auto simp: ScalarMustParse_def split: sum.splits)

lemma nodeScalars_spec:
  assumes "expanded_ok (AMap m)"
  shows "nodeScalars m =
    (if map_of m ''@value'' = None \<and> map_of m ''@id'' = None \<and> map_of m ''@list'' = None
        \<and> map_of m ''@set'' = None then None
     else Some (as_panic (spec_values (AMap m) [])))"
  using assms
  by (auto simp: nodeScalars_def ScalarMustParse_def mustParseEach_spec list_elems_def
      split: option.splits sum.splits)

lemma map_of_ok:
  "list_all (\<lambda>kv. expanded_ok (snd kv)) m \<Longrightarrow> map_of m k = Some v \<Longrightarrow> expanded_ok v"
  by (induction m) (auto split: if_splits)

lemma values_spec:
  "list_all expanded_ok xs \<Longrightarrow>
     valuesFromSliceAtPath xs tp = as_panic (spec_values (ASlice xs) (Terms tp))"
  "expanded_ok (AMap m) \<Longrightarrow>
     valuesFromMapAtPath m tp = as_panic (spec_values (AMap m) (Terms tp))"
proof (induction xs tp and m tp rule: valuesFromSliceAtPath_valuesFromMapAtPath.induct)
  case (1 termPath)
  then show ?case by simp
next
  case (2 sub rest termPath)
  then show ?case
    by (cases sub) (auto split: sum.splits)
next
  case (3 expanded termPath)
  obtain ts where tp: "termPath = TermPath ts" by (cases termPath)
  show ?case
  proof (cases ts)
    case Nil
    have ok: "expanded_ok (AMap expanded)" by (rule "3.prems")
    then have nokey: "map_of expanded [] = None" by simp
    show ?thesis
    proof (cases "map_of expanded ''@value'' = None \<and> map_of expanded ''@id'' = None
        \<and> map_of expanded ''@list'' = None \<and> map_of expanded ''@set'' = None")
      case True
      then have "nodeScalars expanded = None" "spec_values (AMap expanded) [] = Inr []"
        by (simp_all add: nodeScalars_spec [OF ok])
      then show ?thesis using tp Nil nokey by simp
    next
      case False
      then have "nodeScalars expanded = Some (as_panic (spec_values (AMap expanded) []))"
        by (simp only: nodeScalars_spec [OF ok] if_False)
      then show ?thesis using tp Nil by simp
    qed
  next
    case (Cons h t)
    with 3 tp show ?thesis
      by (auto split: option.splits any.splits dest: map_of_ok)
  qed
qed

text \<open>
  Claim C2, as stated, fails: \<open>ValuesAtPath\<close> answers an empty term path with no scalars
  before it reads the document, where the recursion of the specification gives the
  scalar of the node (here the \<open>@id\<close> of the one node of the expansion).
\<close>

theorem ValuesAtPath_empty_path_counterexample:
  "example_Unmarshal jane_document = Inr jane_json \<and>
   example_Expand jane_json = Inr jane_expanded \<and>
   ValuesAtPath example_Unmarshal example_Expand jane_document (TermPath []) = Inr (Inr []) \<and>
   spec_values (ASlice jane_expanded) [] = Inr [Scalar (AString ''http://example.org/jane'')]"
  by (simp add: ValuesAtPath_def example_Unmarshal_def example_Expand_def jane_expanded_def)

text \<open>
  Claim C2, amended. When the document parses and expands to a tree as the JSON-LD
  expansion produces them: for the empty term path \<open>ValuesAtPath\<close> returns no scalars;
  for a non-empty term path, whenever the recursion of the specification over the
  expanded tree yields scalars (every value it parses is a boolean, a string or a
  double), \<open>ValuesAtPath\<close> returns exactly these scalars, in order, and no error. Inside
  the recursion an exhausted path yields the node's own scalar value. What the code
  does where a value does not parse is no part of the statement.
\<close>

theorem ValuesAtPath_spec_recursion:
  assumes "json_Unmarshal document = Inr input"
    and "Expand input = Inr expanded"
    and "list_all expanded_ok expanded"
  shows "(Terms termPath = [] \<longrightarrow>
            ValuesAtPath json_Unmarshal Expand document termPath = Inr (Inr [])) \<and>
         (Terms termPath \<noteq> [] \<and>
          spec_values (ASlice expanded) (Terms termPath) = Inr scalars \<longrightarrow>
            ValuesAtPath json_Unmarshal Expand document termPath = Inr (Inr scalars))"
  using assms values_spec(1) [OF assms(3), of termPath]
  by (auto simp: ValuesAtPath_def split: sum.splits)

theorem ValuesAtPath_spec_recursion_witness:
  "example_Unmarshal jane_document = Inr jane_json \<and>
   example_Expand jane_json = Inr jane_expanded \<and>
   list_all expanded_ok jane_expanded \<and>
   ValuesAtPath example_Unmarshal example_Expand jane_document
     (TermPath [''http://schema.org/name'']) = Inr (Inr [Scalar (AString ''Jane Doe'')])"
proof -
  have u: "example_Unmarshal jane_document = Inr jane_json"
    by (simp add: example_Unmarshal_def)
  have e: "example_Expand jane_json = Inr jane_expanded"
    by (simp add: example_Expand_def)
  have ok: "list_all expanded_ok jane_expanded"
    by (simp add: jane_expanded_def)
  from ValuesAtPath_spec_recursion [where json_Unmarshal = example_Unmarshal
      and Expand = example_Expand and document = jane_document and input = jane_json
      and expanded = jane_expanded and termPath = "TermPath [''http://schema.org/name'']"
      and scalars = "[Scalar (AString ''Jane Doe'')]", OF u e ok]
  have "ValuesAtPath example_Unmarshal example_Expand jane_document
     (TermPath [''http://schema.org/name'']) = Inr (Inr [Scalar (AString ''Jane Doe'')])"
    by (simp add: jane_expanded_def)
  with u e ok show ?thesis by simp
qed

text \<open>
  Left out of the amended claim: a value that does not parse makes \<open>ValuesAtPath\<close>
  panic, where the failures of the decoder and of the expansion are returned as errors.
  The elements of an expanded \<open>@list\<close> are value objects, not scalars, so a term path
  that ends at a list node with an element panics with \<open>ErrInvalidValue\<close>.
\<close>

lemma ValuesAtPath_list_panics:
  "list_all expanded_ok
     [AMap [(''http://schema.org/children'',
             ASlice [AMap [(''@list'', ASlice [AMap [(''@value'', AString ''John Doe'')]])]])]] \<and>
   valuesFromSliceAtPath
     [AMap [(''http://schema.org/children'',
             ASlice [AMap [(''@list'', ASlice [AMap [(''@value'', AString ''John Doe'')]])]])]]
     (TermPath [''http://schema.org/children'']) = Inl (PanicError ErrInvalidValue)"
  by (simp add: nodeScalars_def ScalarMustParse_def)

text \<open>
  Claim C8. A document that \<open>json.Unmarshal\<close> rejects, with a non-empty term path:
  \<open>ValuesAtPath\<close> returns the error of the decoder as it is, which is never the
  package's \<open>ErrInvalidJSON\<close>. An error of the JSON-LD expansion of a parsed document
  is returned as it is.
\<close>

theorem ValuesAtPath_unparsable:
  assumes "Terms termPath \<noteq> []"
  shows "(json_Unmarshal document = Inl err \<longrightarrow>
      ValuesAtPath json_Unmarshal Expand document termPath = Inr (Inl (JSONError err)) \<and>
      ValuesAtPath json_Unmarshal Expand document termPath \<noteq> Inr (Inl ErrInvalidJSON)) \<and>
     (json_Unmarshal document = Inr input \<and> Expand input = Inl lderr \<longrightarrow>
      ValuesAtPath json_Unmarshal Expand document termPath = Inr (Inl (LDError lderr)))"
  using assms by (simp add: ValuesAtPath_def)

theorem ValuesAtPath_unparsable_witness:
  "Terms (TermPath [''http://schema.org/name'']) \<noteq> [] \<and>
   example_Unmarshal [] = Inl (SyntaxError ''unexpected end of JSON input'') \<and>
   ValuesAtPath example_Unmarshal example_Expand [] (TermPath [''http://schema.org/name''])
     = Inr (Inl (JSONError (SyntaxError ''unexpected end of JSON input'')))"
proof -
  have p: "Terms (TermPath [''http://schema.org/name'']) \<noteq> []" by simp
  have u: "example_Unmarshal [] = Inl (SyntaxError ''unexpected end of JSON input'')"
    by (simp add: example_Unmarshal_def jane_document_def bytes_of_string_def)
  from ValuesAtPath_unparsable [where json_Unmarshal = example_Unmarshal
      and Expand = example_Expand and document = "[]"
      and err = "SyntaxError ''unexpected end of JSON input''", OF p] u p
  show ?thesis by simp
qed

section \<open>Properties of the collection\<close>

lemma findIndex_loop_none:
  "\<forall>i\<in>set xs. \<not> cM < index_IsMatch i q \<Longrightarrow> findIndex_loop xs q cI cM = cI"
  by (induction xs arbitrary: cI cM) (auto simp: Let_def)

lemma findIndex_loop_some:
  "\<exists>i\<in>set xs. cM < index_IsMatch i q \<Longrightarrow>
   \<exists>i\<in>set xs. findIndex_loop xs q cI cM = Some i \<and> cM < index_IsMatch i q \<and>
     (\<forall>j\<in>set xs. index_IsMatch j q \<le> index_IsMatch i q)"
proof (induction xs arbitrary: cI cM)
  case Nil
  then show ?case by simp
next
  case (Cons i rest)
  let ?m = "index_IsMatch i q"
  show ?case
  proof (cases "cM < ?m")
    case True
    show ?thesis
    proof (cases "\<exists>j\<in>set rest. ?m < index_IsMatch j q")
      case ex: True
      from Cons.IH [OF ex, of "Some i"] obtain k where
        k: "k \<in> set rest" "findIndex_loop rest q (Some i) ?m = Some k" "?m < index_IsMatch k q"
        "\<forall>j\<in>set rest. index_IsMatch j q \<le> index_IsMatch k q" by blast
      with True show ?thesis
        by (intro bexI [of _ k]) (auto simp: Let_def)
    next
      case no: False
      then have "findIndex_loop rest q (Some i) ?m = Some i"
        by (intro findIndex_loop_none) auto
      with True no show ?thesis
        by (intro bexI [of _ i]) (auto simp: Let_def not_less)
    qed
  next
    case False
    with Cons.prems have ex: "\<exists>j\<in>set rest. cM < index_IsMatch j q" by auto
    from Cons.IH [OF ex, of cI] obtain k where
      k: "k \<in> set rest" "findIndex_loop rest q cI cM = Some k" "cM < index_IsMatch k q"
      "\<forall>j\<in>set rest. index_IsMatch j q \<le> index_IsMatch k q" by blast
    with False show ?thesis
      by (intro bexI [of _ k]) (auto simp: Let_def)
  qed
qed

lemma findIndex_none:
  "\<not> (\<exists>i\<in>set (IndexList c). 0 < index_IsMatch i q) \<Longrightarrow> findIndex c (Some q) = None"
  by (simp add: findIndex_def findIndex_loop_none)

lemma findIndex_some:
  "\<exists>i\<in>set (IndexList c). 0 < index_IsMatch i q \<Longrightarrow>
   \<exists>i\<in>set (IndexList c). findIndex c (Some q) = Some i \<and> 0 < index_IsMatch i q \<and>
     (\<forall>j\<in>set (IndexList c). index_IsMatch j q \<le> index_IsMatch i q)"
  using findIndex_loop_some [of "IndexList c" 0 q None] by (simp add: findIndex_def)

lemma Iterate_eq:
  "Iterate execute c query fn s =
     (case queryPlan c query of Inl err \<Rightarrow> (Some err, s) | Inr plan \<Rightarrow> execute plan fn s)"
  by (auto simp: Iterate_def split: sum.splits prod.splits option.splits)

text \<open>
  Claim C4, amended. A nil query makes \<open>queryPlan\<close>, and so \<open>Iterate\<close> and \<open>Find\<close>, return
  \<open>ErrNoQuery\<close>. For a query \<open>q\<close> that is not nil: when some index of the collection
  scores above 0, there is an index of the list with a positive score that no index of
  the list exceeds; \<open>Iterate\<close> returns what the execution of the result scan with that
  index returns, \<open>Find\<close> executes the same plan with its own walker and returns the
  documents, or the error and no documents, and \<open>IndexIterate\<close> returns what the
  execution of the index scan with that index returns. When no index scores above 0,
  \<open>Iterate\<close> and \<open>Find\<close> execute the full-table scan in the same way, and \<open>IndexIterate\<close>
  returns \<open>ErrNoIndex\<close> and executes nothing. Planning never yields \<open>ErrNoIndex\<close> in
  \<open>Iterate\<close> and \<open>Find\<close>; an error of the execution is returned as it is, so: when the
  execution of a plan does not return \<open>ErrNoIndex\<close> itself, \<open>Iterate\<close> and \<open>Find\<close> do not
  return it, and \<open>IndexIterate\<close> returns it exactly when no index scores above 0.
\<close>

theorem planner_choice:
  "queryPlan c None = Inl ErrNoQuery \<and>
   Iterate execute c None fn s = (Some ErrNoQuery, s) \<and>
   Find execute' c ctx None = (None, Some ErrNoQuery) \<and>
   (if \<exists>i\<in>set (IndexList c). 0 < index_IsMatch i q
    then \<exists>i\<in>set (IndexList c). 0 < index_IsMatch i q \<and>
           (\<forall>j\<in>set (IndexList c). index_IsMatch j q \<le> index_IsMatch i q) \<and>
           queryPlan c (Some q) = Inr (resultScanQueryPlan (Some q) i) \<and>
           Iterate execute c (Some q) fn s = execute (resultScanQueryPlan (Some q) i) fn s \<and>
           Find execute' c ctx (Some q) =
             (case execute' (resultScanQueryPlan (Some q) i) (find_walker ctx) [] of
                (Some err, docs) \<Rightarrow> (None, Some err)
              | (None, docs) \<Rightarrow> (Some docs, None)) \<and>
           IndexIterate execute c (Some q) fn s = execute (indexScanQueryPlan (Some q) i) fn s
    else queryPlan c (Some q) = Inr (fullTableScanQueryPlan (Some q)) \<and>
         Iterate execute c (Some q) fn s = execute (fullTableScanQueryPlan (Some q)) fn s \<and>
         Find execute' c ctx (Some q) =
           (case execute' (fullTableScanQueryPlan (Some q)) (find_walker ctx) [] of
              (Some err, docs) \<Rightarrow> (None, Some err)
            | (None, docs) \<Rightarrow> (Some docs, None)) \<and>
         IndexIterate execute c (Some q) fn s = (Some ErrNoIndex, s)) \<and>
   ((\<forall>plan. fst (execute plan fn s) \<noteq> Some ErrNoIndex) \<longrightarrow>
      fst (Iterate execute c query fn s) \<noteq> Some ErrNoIndex \<and>
      (fst (IndexIterate execute c (Some q) fn s) = Some ErrNoIndex \<longleftrightarrow>
         \<not> (\<exists>i\<in>set (IndexList c). 0 < index_IsMatch i q))) \<and>
   ((\<forall>plan. fst (execute' plan (find_walker ctx) []) \<noteq> Some ErrNoIndex) \<longrightarrow>
      snd (Find execute' c ctx query) \<noteq> Some ErrNoIndex)"
proof -
  have nil: "queryPlan c None = Inl ErrNoQuery"
    "Iterate execute c None fn s = (Some ErrNoQuery, s)"
    "Find execute' c ctx None = (None, Some ErrNoQuery)"
    by (simp_all add: queryPlan_def Iterate_eq Find_def)
  have choice: "(if \<exists>i\<in>set (IndexList c). 0 < index_IsMatch i q
    then \<exists>i\<in>set (IndexList c). 0 < index_IsMatch i q \<and>
           (\<forall>j\<in>set (IndexList c). index_IsMatch j q \<le> index_IsMatch i q) \<and>
           queryPlan c (Some q) = Inr (resultScanQueryPlan (Some q) i) \<and>
           Iterate execute c (Some q) fn s = execute (resultScanQueryPlan (Some q) i) fn s \<and>
           Find execute' c ctx (Some q) =
             (case execute' (resultScanQueryPlan (Some q) i) (find_walker ctx) [] of
                (Some err, docs) \<Rightarrow> (None, Some err)
              | (None, docs) \<Rightarrow> (Some docs, None)) \<and>
           IndexIterate execute c (Some q) fn s = execute (indexScanQueryPlan (Some q) i) fn s
    else queryPlan c (Some q) = Inr (fullTableScanQueryPlan (Some q)) \<and>
         Iterate execute c (Some q) fn s = execute (fullTableScanQueryPlan (Some q)) fn s \<and>
         Find execute' c ctx (Some q) =
           (case execute' (fullTableScanQueryPlan (Some q)) (find_walker ctx) [] of
              (Some err, docs) \<Rightarrow> (None, Some err)
            | (None, docs) \<Rightarrow> (Some docs, None)) \<and>
         IndexIterate execute c (Some q) fn s = (Some ErrNoIndex, s))"
  proof (cases "\<exists>i\<in>set (IndexList c). 0 < index_IsMatch i q")
    case True
    from findIndex_some [OF True] obtain i where
      i: "i \<in> set (IndexList c)" "findIndex c (Some q) = Some i" "0 < index_IsMatch i q"
      "\<forall>j\<in>set (IndexList c). index_IsMatch j q \<le> index_IsMatch i q" by blast
    then have "queryPlan c (Some q) = Inr (resultScanQueryPlan (Some q) i)"
      "Iterate execute c (Some q) fn s = execute (resultScanQueryPlan (Some q) i) fn s"
      "Find execute' c ctx (Some q) =
         (case execute' (resultScanQueryPlan (Some q) i) (find_walker ctx) [] of
            (Some err, docs) \<Rightarrow> (None, Some err)
          | (None, docs) \<Rightarrow> (Some docs, None))"
      "IndexIterate execute c (Some q) fn s = execute (indexScanQueryPlan (Some q) i) fn s"
      by (simp_all add: queryPlan_def Iterate_eq IndexIterate_def Find_def)
    with i True show ?thesis by auto
  next
    case False
    from findIndex_none [OF False] have "findIndex c (Some q) = None" .
    then have "queryPlan c (Some q) = Inr (fullTableScanQueryPlan (Some q))"
      "Iterate execute c (Some q) fn s = execute (fullTableScanQueryPlan (Some q)) fn s"
      "Find execute' c ctx (Some q) =
         (case execute' (fullTableScanQueryPlan (Some q)) (find_walker ctx) [] of
            (Some err, docs) \<Rightarrow> (None, Some err)
          | (None, docs) \<Rightarrow> (Some docs, None))"
      "IndexIterate execute c (Some q) fn s = (Some ErrNoIndex, s)"
      by (simp_all add: queryPlan_def Iterate_eq IndexIterate_def Find_def)
    with False show ?thesis by simp
  qed
  have plan_err: "queryPlan c query \<noteq> Inl ErrNoIndex"
    by (auto simp: queryPlan_def split: option.splits if_splits)
  have never: "(\<forall>plan. fst (execute plan fn s) \<noteq> Some ErrNoIndex) \<longrightarrow>
      fst (Iterate execute c query fn s) \<noteq> Some ErrNoIndex \<and>
      (fst (IndexIterate execute c (Some q) fn s) = Some ErrNoIndex \<longleftrightarrow>
         \<not> (\<exists>i\<in>set (IndexList c). 0 < index_IsMatch i q))"
  proof (intro impI conjI)
    assume ex: "\<forall>plan. fst (execute plan fn s) \<noteq> Some ErrNoIndex"
    show "fst (Iterate execute c query fn s) \<noteq> Some ErrNoIndex"
      using ex plan_err by (auto simp: Iterate_eq split: sum.splits)
    show "fst (IndexIterate execute c (Some q) fn s) = Some ErrNoIndex \<longleftrightarrow>
         \<not> (\<exists>i\<in>set (IndexList c). 0 < index_IsMatch i q)"
      using choice ex by (auto split: if_splits)
  qed
  have find: "(\<forall>plan. fst (execute' plan (find_walker ctx) []) \<noteq> Some ErrNoIndex) \<longrightarrow>
      snd (Find execute' c ctx query) \<noteq> Some ErrNoIndex"
  proof
    assume ex: "\<forall>plan. fst (execute' plan (find_walker ctx) []) \<noteq> Some ErrNoIndex"
    have "fst (Iterate execute' c query (find_walker ctx) []) \<noteq> Some ErrNoIndex"
      using ex plan_err by (auto simp: Iterate_eq split: sum.splits)
    then show "snd (Find execute' c ctx query) \<noteq> Some ErrNoIndex"
      by (auto simp: Find_def split: prod.splits option.splits)
  qed
  show ?thesis
    by (intro conjI nil choice never find)
qed

lemma feed_find_walker_all:
  "\<forall>k. length docs \<le> k \<and> k < length docs + length items \<longrightarrow> ctx k = None \<Longrightarrow>
   feed (find_walker ctx) items docs = (None, docs @ map snd items)"
proof (induction items arbitrary: docs)
  case Nil
  then show ?case by simp
next
  case (Cons kv items)
  obtain k v where kv: "kv = (k, v)" by (cases kv)
  from Cons.prems have c0: "ctx (length docs) = None" by simp
  have "\<forall>j. length (docs @ [v]) \<le> j \<and> j < length (docs @ [v]) + length items \<longrightarrow> ctx j = None"
    using Cons.prems by simp
  from Cons.IH [OF this] c0 kv show ?case
    by (simp add: find_walker_def)
qed

lemma feed_find_walker_cancel:
  "ctx (length docs + m) = Some err \<Longrightarrow>
   \<forall>k. length docs \<le> k \<and> k < length docs + m \<longrightarrow> ctx k = None \<Longrightarrow>
   m < length items \<Longrightarrow>
   fst (feed (find_walker ctx) items docs) = Some err"
proof (induction items arbitrary: docs m)
  case Nil
  then show ?case by simp
next
  case (Cons kv items)
  obtain k v where kv: "kv = (k, v)" by (cases kv)
  show ?case
  proof (cases m)
    case 0
    with Cons.prems kv show ?thesis by (simp add: find_walker_def)
  next
    case (Suc m')
    with Cons.prems have c0: "ctx (length docs) = None" by simp
    have a: "ctx (length (docs @ [v]) + m') = Some err"
      using Cons.prems(1) Suc by simp
    have b: "\<forall>j. length (docs @ [v]) \<le> j \<and> j < length (docs @ [v]) + m' \<longrightarrow> ctx j = None"
      using Cons.prems(2) Suc by simp
    have c: "m' < length items" using Cons.prems(3) Suc by simp
    from Cons.IH [OF a b c] c0 kv show ?thesis
      by (simp add: find_walker_def)
  qed
qed

text \<open>
  Claim C5, amended. \<open>Find\<close> reads the cancellation handle in its walker, once per
  document a plan hands to it. With a query that is not nil and a handle that reports
  the error \<open>err\<close> when \<open>n\<close> documents have been collected (an already cancelled handle
  is \<open>n = 0\<close>): if the plan hands more than \<open>n\<close> documents to the walker, \<open>Find\<close> returns
  \<open>err\<close> as it is and no documents, whatever was collected before; if the plan hands no
  document to the walker, the handle is not read, and \<open>Find\<close> returns the empty result
  with no error (or the error the plan itself ends with).
\<close>

theorem Find_cancelled:
  assumes "queryPlan c (Some q) = Inr plan"
    and "ctx n = Some err"
    and "\<forall>k<n. ctx k = None"
  shows "(n < length (fst (emitted plan)) \<longrightarrow>
            Find (walk_plan emitted) c ctx (Some q) = (None, Some err)) \<and>
         (fst (emitted plan) = [] \<longrightarrow>
            Find (walk_plan emitted) c ctx (Some q) =
              (case snd (emitted plan) of None \<Rightarrow> (Some [], None) | Some e \<Rightarrow> (None, Some e)))"
proof (intro conjI impI)
  assume n: "n < length (fst (emitted plan))"
  have "fst (feed (find_walker ctx) (fst (emitted plan)) []) = Some err"
    using feed_find_walker_cancel [of ctx "[]" n err "fst (emitted plan)"] assms(2,3) n
    by simp
  then show "Find (walk_plan emitted) c ctx (Some q) = (None, Some err)"
    using assms(1)
    by (auto simp: Find_def Iterate_eq walk_plan_def split: prod.splits option.splits)
next
  assume "fst (emitted plan) = []"
  then show "Find (walk_plan emitted) c ctx (Some q) =
      (case snd (emitted plan) of None \<Rightarrow> (Some [], None) | Some e \<Rightarrow> (None, Some e))"
    using assms(1)
    by (auto simp: Find_def Iterate_eq walk_plan_def split: prod.splits option.splits)
qed

lemma map_of_kv_Put: "map_of (kv_Put k v m) k = Some v"
  by (induction m) auto

lemma map_of_kv_Put_other: "k' \<noteq> k \<Longrightarrow> map_of (kv_Put k v m) k' = map_of m k'"
  by (induction m) auto

lemma map_of_kv_Delete: "map_of (kv_Delete k m) k = None"
  by (induction m) (auto simp: kv_Delete_def)

lemma add_indices_documents:
  "add_indices xs ref doc b = Inr b' \<Longrightarrow> documents b' = documents b"
  by (induction xs arbitrary: b) (auto split: sum.splits)

lemma delete_indices_documents:
  "delete_indices xs ref doc b = Inr b' \<Longrightarrow> documents b' = documents b"
  by (induction xs arbitrary: b) (auto split: sum.splits)

lemma add_docs_one:
  assumes "add_docs c [d] b1 = Inr b2"
  shows "documents b2 = map_option (kv_Put (refMake c d) d) (documents b1)"
proof -
  from assms obtain bi where
    i: "add_indices (IndexList c) (refMake c d) d b1 = Inr bi"
    and p: "docBucket_Put (refMake c d) d bi = Inr b2"
    by (auto simp: Let_def split: sum.splits)
  from p have "documents b2 = map_option (kv_Put (refMake c d) d) (documents bi)"
    by (auto simp: docBucket_Put_def split: if_splits)
  with add_indices_documents [OF i] show ?thesis by simp
qed

lemma create_documents:
  "bucket_CreateBucketIfNotExists documentBucketByteRef b = Inr b1 \<Longrightarrow>
   \<exists>docs. documents b1 = Some docs"
  by (auto simp: bucket_CreateBucketIfNotExists_def split: if_splits option.splits)

lemma add_one:
  assumes "add c [d] tx = Inr tx'"
  shows "\<exists>b docs. tx' = tx_store (bytes_of_string (Name c)) b tx \<and>
           documents b = Some (kv_Put (refMake c d) d docs)"
proof -
  from assms obtain b0 b1 b2 where
    c1: "bucket_CreateBucketIfNotExists documentBucketByteRef b0 = Inr b1"
    and a: "add_docs c [d] b1 = Inr b2"
    and t: "tx' = tx_store (bytes_of_string (Name c)) b2 tx"
    unfolding add_def by (auto split: sum.splits)
  from create_documents [OF c1] obtain docs where "documents b1 = Some docs" ..
  with add_docs_one [OF a] have "documents b2 = Some (kv_Put (refMake c d) d docs)" by simp
  with t show ?thesis by blast
qed

lemma Get_after_add:
  assumes "add c [d] tx = Inr tx'"
  shows "Get c (refMake c d) tx' = (Some d, None)"
proof -
  from add_one [OF assms] obtain b docs where
    "tx' = tx_store (bytes_of_string (Name c)) b tx"
    "documents b = Some (kv_Put (refMake c d) d docs)" by blast
  then show ?thesis
    by (simp add: Get_def collection_documentBucket_def tx_Bucket_def tx_store_def
        map_of_kv_Put)
qed

lemma Get_after_delete:
  assumes "Get c (refMake c d) tx = (Some d, None)" and "delete c d tx = Inr tx'"
  shows "Get c (refMake c d) tx' = (None, None)"
proof -
  from assms(1) obtain b docs where b: "tx_Bucket (bytes_of_string (Name c)) tx = Some b"
    "documents b = Some docs"
    by (auto simp: Get_def collection_documentBucket_def Let_def split: option.splits if_splits)
  with assms(2) obtain b2 where
    "tx' = tx_store (bytes_of_string (Name c)) b2 tx"
    "documents b2 = Some (kv_Delete (refMake c d) docs)"
    by (auto simp: delete_def collection_documentBucket_def docBucket_Delete_def Let_def
        split: sum.splits dest!: delete_indices_documents)
  then show ?thesis
    by (simp add: Get_def collection_documentBucket_def tx_Bucket_def tx_store_def
        map_of_kv_Put map_of_kv_Delete)
qed

text \<open>
  Claim C1. After \<open>Add([d])\<close>, that is when it has returned no error, \<open>Get\<close> of the
  reference of \<open>d\<close> returns \<open>d\<close> with no error; after a following \<open>Delete(d)\<close>, when it has
  returned no error, \<open>Get\<close> of the reference returns no document and no error. An \<open>Add\<close>
  or a \<open>Delete\<close> that returns an error has done nothing: its transaction is rolled back
  and the store is as before.
\<close>

theorem Add_Get_Delete:
  "(case Add c [d] db0 of
      (Some err, db1) \<Rightarrow> db1 = db0
    | (None, db1) \<Rightarrow>
        Get c (Reference_of c d) db1 = (Some d, None) \<and>
        (case Delete c d db1 of
           (Some err, db2) \<Rightarrow> db2 = db1
         | (None, db2) \<Rightarrow> Get c (Reference_of c d) db2 = (None, None)))"
proof (cases "add c [d] db0")
  case (Inl err)
  then show ?thesis by (simp add: Add_def db_Update_def)
next
  case (Inr db1)
  have g: "Get c (refMake c d) db1 = (Some d, None)" by (rule Get_after_add [OF Inr])
  show ?thesis
  proof (cases "delete c d db1")
    case (Inl err)
    with Inr g show ?thesis by (simp add: Add_def Delete_def db_Update_def Reference_of_def)
  next
    case del: (Inr db2)
    from Get_after_delete [OF g del] Inr g del show ?thesis
      by (simp add: Add_def Delete_def db_Update_def Reference_of_def)
  qed
qed

lemmas store_defs = Add_def Delete_def db_Update_def add_def delete_def Get_def
  collection_documentBucket_def tx_Bucket_def tx_CreateBucketIfNotExists_def
  bucket_CreateBucketIfNotExists_def bucket_Bucket_exists_def empty_bucket_def
  documentBucketByteRef_def documentBucket_def bytes_of_string_def docBucket_Put_def
  docBucket_Delete_def tx_store_def kv_Delete_def stored_documents_def addIndex_tx_def
  Reference_of_def Let_def

lemmas example_defs = test_collection_def example_index_def example_ref_def example_Add_def
  example_Delete_def doc1_def doc2_def jane_query_def ctx_background_def ctx_cancelled_def
  emits_nothing_def emits_doc1_def

theorem Add_Get_Delete_witness:
  "fst (Add (test_collection [example_index ''name'' 1]) [doc1] []) = None \<and>
   Get (test_collection [example_index ''name'' 1]) (example_ref doc1)
     (snd (Add (test_collection [example_index ''name'' 1]) [doc1] [])) = (Some doc1, None) \<and>
   fst (Delete (test_collection [example_index ''name'' 1]) doc1
     (snd (Add (test_collection [example_index ''name'' 1]) [doc1] []))) = None \<and>
   Get (test_collection [example_index ''name'' 1]) (example_ref doc1)
     (snd (Delete (test_collection [example_index ''name'' 1]) doc1
       (snd (Add (test_collection [example_index ''name'' 1]) [doc1] [])))) = (None, None)"
proof -
  let ?c = "test_collection [example_index ''name'' 1]"
  let ?db1 = "[(bytes_of_string ''test'',
      \<lparr>documents = Some [(example_ref doc1, doc1)],
       indices = [(bytes_of_string ''name'', [(doc1, [example_ref doc1])])]\<rparr>)]"
  let ?db2 = "[(bytes_of_string ''test'',
      \<lparr>documents = Some [], indices = [(bytes_of_string ''name'', [])]\<rparr>)]"
  have a: "Add ?c [doc1] [] = (None, ?db1)"
    by (simp add: store_defs example_defs)
  have d: "Delete ?c doc1 ?db1 = (None, ?db2)"
    by (simp add: store_defs example_defs)
  have r: "Reference_of ?c doc1 = example_ref doc1"
    by (simp add: Reference_of_def test_collection_def)
  from Add_Get_Delete [of ?c doc1 "[]"] show ?thesis
    by (simp add: a d r)
qed

theorem Find_cancelled_witness:
  "queryPlan (test_collection []) (Some jane_query) = Inr (fullTableScanQueryPlan (Some jane_query)) \<and>
   ctx_cancelled 0 = Some Canceled \<and>
   Find (walk_plan emits_doc1) (test_collection []) ctx_cancelled (Some jane_query)
     = (None, Some Canceled)"
proof -
  have p: "queryPlan (test_collection []) (Some jane_query)
      = Inr (fullTableScanQueryPlan (Some jane_query))"
    by (simp add: queryPlan_def findIndex_def test_collection_def)
  have c: "ctx_cancelled 0 = Some Canceled" by (simp add: ctx_cancelled_def)
  have n: "\<forall>k<(0::nat). ctx_cancelled k = None" by simp
  from Find_cancelled [OF p c n, where emitted = emits_doc1] p c show ?thesis
    by (simp add: emits_doc1_def)
qed

text \<open>
  Claim C5, as stated, fails when the plan finds nothing: the walker is not called, the
  cancelled handle is not read, and \<open>Find\<close> returns the empty result and no error.
\<close>

theorem Find_cancelled_counterexample:
  "ctx_cancelled 0 = Some Canceled \<and>
   Find (walk_plan emits_nothing) (test_collection []) ctx_cancelled (Some jane_query)
     = (Some [], None)"
  by (simp add: Find_def Iterate_def queryPlan_def findIndex_def walk_plan_def
      emits_nothing_def test_collection_def ctx_cancelled_def)

text \<open>
  Claim C4, as stated, fails for a walker that returns \<open>ErrNoIndex\<close>: the error of a
  walker ends the execution and is returned as it is, so \<open>Iterate\<close> returns \<open>ErrNoIndex\<close>,
  and \<open>IndexIterate\<close> returns it although an index of the collection scores above 0.
\<close>

theorem planner_walker_counterexample:
  "list_ex (\<lambda>i. 0 < index_IsMatch i jane_query)
     (IndexList (test_collection [example_index ''name'' 1])) \<and>
   Iterate (walk_plan emits_doc1) (test_collection [example_index ''name'' 1])
     (Some jane_query) noindex_walker () = (Some ErrNoIndex, ()) \<and>
   IndexIterate (walk_plan emits_doc1) (test_collection [example_index ''name'' 1])
     (Some jane_query) noindex_walker () = (Some ErrNoIndex, ())"
  by (simp add: Iterate_def IndexIterate_def queryPlan_def findIndex_def walk_plan_def
      noindex_walker_def example_defs Eq_def)

theorem planner_choice_witness:
  "(\<forall>plan. fst (walk_plan emits_nothing plan (find_walker ctx_background) [])
      \<noteq> Some ErrNoIndex) \<and>
   fst (IndexIterate (walk_plan emits_nothing)
     (test_collection [example_index ''name_url'' (1 / 2), example_index ''name'' 1])
     (Some jane_query) (find_walker ctx_background) []) \<noteq> Some ErrNoIndex \<and>
   fst (IndexIterate (walk_plan emits_nothing) (test_collection [])
     (Some jane_query) (find_walker ctx_background) []) = Some ErrNoIndex"
proof -
  let ?ex = "walk_plan emits_nothing"
  let ?fn = "find_walker ctx_background"
  let ?c = "test_collection [example_index ''name_url'' (1 / 2), example_index ''name'' 1]"
  have h: "\<forall>plan. fst (?ex plan ?fn []) \<noteq> Some ErrNoIndex"
    by (simp add: walk_plan_def emits_nothing_def)
  have some: "\<exists>i\<in>set (IndexList ?c). 0 < index_IsMatch i jane_query"
    by (simp add: example_defs Eq_def)
  have none: "\<not> (\<exists>i\<in>set (IndexList (test_collection [])). 0 < index_IsMatch i jane_query)"
    by (simp add: test_collection_def)
  from planner_choice [where c = ?c and execute = ?ex and fn = ?fn and s = "[]"
      and q = jane_query and query = None and execute' = ?ex and ctx = ctx_background] h some
  have 1: "fst (IndexIterate ?ex ?c (Some jane_query) ?fn []) \<noteq> Some ErrNoIndex"
    by blast
  from planner_choice [where c = "test_collection []" and execute = ?ex and fn = ?fn
      and s = "[]" and q = jane_query and query = None and execute' = ?ex
      and ctx = ctx_background] h none
  have 2: "fst (IndexIterate ?ex (test_collection []) (Some jane_query) ?fn []) = Some ErrNoIndex"
    by blast
  from h 1 2 show ?thesis by blast
qed








text \<open>
  The early return of \<open>AddIndex\<close>: the first given index whose name is already in the
  index list ends the whole call, and the indexes given after it are not looked at.
\<close>

lemma AddIndex_after_duplicate:
  "AddIndex (test_collection [example_index ''name'' 1])
     [example_index ''name'' 1, example_index ''other'' 1] []
   = (None, test_collection [example_index ''name'' 1], [])"
  by (simp add: test_collection_def example_index_def)

end
